theory Spec2Isabelle
  imports Main "HOL-Library.Sublist"
begin

section \<open>Python values and exceptions\<close>

text \<open>
  The matching core of \<^verbatim>\<open>pokemon.py\<close> is the class \<^verbatim>\<open>Suggest\<close> with its two methods
  \<^verbatim>\<open>lev_distance\<close> and \<^verbatim>\<open>suggestions\<close>. Python integers are unbounded and are modelled
  by \<^typ>\<open>int\<close>. A Python string is a sequence of code points and is modelled by a list of
  code points, so that \<^verbatim>\<open>len\<close> is \<^const>\<open>length\<close>. Every operation of the source that can
  raise is modelled by a function into \<open>error + 'a\<close>: subscripting a list or a string out of
  range raises \<^verbatim>\<open>IndexError\<close>, subscripting a dict at a missing key raises \<^verbatim>\<open>KeyError\<close>,
  and \<^verbatim>\<open>min\<close> of an empty sequence raises \<^verbatim>\<open>ValueError\<close>.
\<close>

datatype error = IndexError | KeyError | ValueError

definition bind_e :: "error + 'a \<Rightarrow> ('a \<Rightarrow> error + 'b) \<Rightarrow> error + 'b" where
  "bind_e r f = (case r of Inl e \<Rightarrow> Inl e | Inr v \<Rightarrow> f v)"

text \<open>A \<^verbatim>\<open>for x in xs: body\<close> loop: the body runs once per element, threading the
  state, and the first exception leaves the loop.\<close>

fun for_each :: "'a list \<Rightarrow> ('a \<Rightarrow> 's \<Rightarrow> error + 's) \<Rightarrow> 's \<Rightarrow> error + 's" where
  "for_each [] body s = Inr s"
| "for_each (x # xs) body s = bind_e (body x s) (for_each xs body)"

text \<open>\<^verbatim>\<open>xs[i]\<close> for an index \<open>i \<ge> 0\<close>, and \<^verbatim>\<open>xs[-1]\<close>.\<close>

definition list_get :: "'a list \<Rightarrow> nat \<Rightarrow> error + 'a" where
  "list_get xs i = (if i < length xs then Inr (xs ! i) else Inl IndexError)"

definition list_last :: "'a list \<Rightarrow> error + 'a" where
  "list_last xs = (if xs = [] then Inl IndexError else Inr (last xs))"

text \<open>The builtin \<^verbatim>\<open>min\<close> on a sequence.\<close>

fun py_min :: "int list \<Rightarrow> error + int" where
  "py_min [] = Inl ValueError"
| "py_min (x # xs) = Inr (fold min xs x)"

text \<open>The code points of the model: the code points 0 to 255 (a \<^typ>\<open>char\<close> each), the
  capital I with a dot above, U+0130, and the combining dot above, U+0307. U+0130 is the code
  point that \<^verbatim>\<open>str.lower()\<close> replaces by two code points, the small \<open>i\<close> followed by
  U+0307. A string literal \<open>''abc''\<close> is embedded by \<open>str\<close>.\<close>

datatype codepoint = Latin char | Capital_I_dot | Combining_dot

type_synonym pystr = "codepoint list"

definition str :: "string \<Rightarrow> pystr" where
  "str cs = map Latin cs"

text \<open>\<^verbatim>\<open>str.lower()\<close>. On the code points 0 to 255 the capital letters \<open>A\<close> to \<open>Z\<close>
  (65 to 90) and the Latin-1 capitals (192 to 222 except the multiplication sign 215) move
  up by 32, and every other code point is unchanged. U+0130 becomes \<open>i\<close> and U+0307;
  U+0307 has no case and is unchanged. The result is the concatenation, so the lowercase
  form of a string can be longer than the string.\<close>

definition lower_char :: "char \<Rightarrow> char" where
  "lower_char c =
     (let n = (of_char c :: nat)
      in if (65 \<le> n \<and> n \<le> 90) \<or> (192 \<le> n \<and> n \<le> 214) \<or> (216 \<le> n \<and> n \<le> 222)
         then char_of (n + 32) else c)"

fun lower_codepoint :: "codepoint \<Rightarrow> pystr" where
  "lower_codepoint (Latin c) = [Latin (lower_char c)]"
| "lower_codepoint Capital_I_dot = [Latin CHR ''i'', Combining_dot]"
| "lower_codepoint Combining_dot = [Combining_dot]"

definition lower :: "pystr \<Rightarrow> pystr" where
  "lower s = concat (map lower_codepoint s)"

text \<open>\<^verbatim>\<open>needle in hay\<close> on strings: \<open>needle\<close> occurs in \<open>hay\<close> as a contiguous block.\<close>

fun str_in :: "pystr \<Rightarrow> pystr \<Rightarrow> bool" where
  "str_in needle [] = (needle = [])"
| "str_in needle (c # cs) = (prefix needle (c # cs) \<or> str_in needle cs)"

section \<open>The distance matrix\<close>

type_synonym matrix = "int list list"

text \<open>\<^verbatim>\<open>matrix[i][j]\<close>, \<^verbatim>\<open>matrix[i][j] = v\<close> and \<^verbatim>\<open>matrix[i].append(v)\<close>. Every row of
  the matrix is a list of its own, so an update of one row leaves the others alone.\<close>

definition matrix_get :: "matrix \<Rightarrow> nat \<Rightarrow> nat \<Rightarrow> error + int" where
  "matrix_get m i j = bind_e (list_get m i) (\<lambda>row. list_get row j)"

definition matrix_set :: "matrix \<Rightarrow> nat \<Rightarrow> nat \<Rightarrow> int \<Rightarrow> error + matrix" where
  "matrix_set m i j v =
     bind_e (list_get m i)
       (\<lambda>row. if j < length row then Inr (m[i := row[j := v]]) else Inl IndexError)"

definition row_append :: "matrix \<Rightarrow> nat \<Rightarrow> int \<Rightarrow> error + matrix" where
  "row_append m i v = bind_e (list_get m i) (\<lambda>row. Inr (m[i := row @ [v]]))"

section \<open>\<^verbatim>\<open>Suggest.lev_distance\<close>\<close>

text \<open>The first row, \<^verbatim>\<open>[index for index in range(len(str1) + 1)]\<close>.\<close>

definition first_row :: "pystr \<Rightarrow> int list" where
  "first_row str1 = map int [0..<length str1 + 1]"

text \<open>One round of the loop that creates the rows: \<^verbatim>\<open>matrix.append([row + 1])\<close>, then
  \<^verbatim>\<open>matrix[row + 1].append(0)\<close> once per column.\<close>

definition add_row :: "pystr \<Rightarrow> nat \<Rightarrow> matrix \<Rightarrow> error + matrix" where
  "add_row str1 row m =
     for_each [0..<length str1] (\<lambda>col m'. row_append m' (row + 1) 0) (m @ [[int row + 1]])"

definition create_matrix :: "pystr \<Rightarrow> pystr \<Rightarrow> error + matrix" where
  "create_matrix str1 str2 = for_each [0..<length str2] (add_row str1) [first_row str1]"

text \<open>The body of the inner loop that calculates the edit distance.\<close>

definition cell_update :: "pystr \<Rightarrow> pystr \<Rightarrow> nat \<Rightarrow> nat \<Rightarrow> matrix \<Rightarrow> error + matrix" where
  "cell_update str1 str2 index2 index1 m =
     bind_e (list_get str2 index2) (\<lambda>c2.
     bind_e (list_get str1 index1) (\<lambda>c1.
       if c2 = c1
       then bind_e (matrix_get m index2 index1) (\<lambda>v.
              matrix_set m (index2 + 1) (index1 + 1) v)
       else bind_e (matrix_get m index2 index1) (\<lambda>top.
            bind_e (matrix_get m index2 (index1 + 1)) (\<lambda>left.
            bind_e (matrix_get m (index2 + 1) index1) (\<lambda>bottom.
            bind_e (py_min [top, left, bottom]) (\<lambda>min_of_three.
              matrix_set m (index2 + 1) (index1 + 1) (min_of_three + 1)))))))"

definition calc_row :: "pystr \<Rightarrow> pystr \<Rightarrow> nat \<Rightarrow> matrix \<Rightarrow> error + matrix" where
  "calc_row str1 str2 index2 m = for_each [0..<length str1] (cell_update str1 str2 index2) m"

definition calc_matrix :: "pystr \<Rightarrow> pystr \<Rightarrow> matrix \<Rightarrow> error + matrix" where
  "calc_matrix str1 str2 m = for_each [0..<length str2] (calc_row str1 str2) m"

text \<open>The whole method: lowercase both strings, create the matrix, fill it, and return
  \<^verbatim>\<open>matrix[-1][-1]\<close>.\<close>

definition lev_matrix :: "pystr \<Rightarrow> pystr \<Rightarrow> error + matrix" where
  "lev_matrix s1 s2 =
     (let str1 = lower s1; str2 = lower s2
      in bind_e (create_matrix str1 str2) (calc_matrix str1 str2))"

definition lev_distance :: "pystr \<Rightarrow> pystr \<Rightarrow> error + int" where
  "lev_distance s1 s2 = bind_e (lev_matrix s1 s2) (\<lambda>m. bind_e (list_last m) list_last)"

section \<open>\<^verbatim>\<open>Suggest.suggestions\<close>\<close>

text \<open>\<^verbatim>\<open>hit_dict\<close> is a Python dict: it keeps its keys in the order of their first
  insertion, and an assignment to a key already present replaces the value where the key
  stands. It is modelled by an association list with distinct keys.\<close>

type_synonym hits = "(pystr \<times> int) list"

fun dict_set :: "hits \<Rightarrow> pystr \<Rightarrow> int \<Rightarrow> hits" where
  "dict_set [] k v = [(k, v)]"
| "dict_set (p # ps) k v = (if fst p = k then (k, v) # ps else p # dict_set ps k v)"

definition dict_get :: "hits \<Rightarrow> pystr \<Rightarrow> error + int" where
  "dict_get d k = (case map_of d k of None \<Rightarrow> Inl KeyError | Some v \<Rightarrow> Inr v)"

record scan =
  direct_suggestions :: "pystr list"
  hit_dict :: hits

text \<open>The body of the first loop over the database.\<close>

definition scan_word :: "pystr \<Rightarrow> pystr \<Rightarrow> scan \<Rightarrow> error + scan" where
  "scan_word user_input word s =
     (let direct = (if str_in user_input (lower word)
                    then direct_suggestions s @ [word] else direct_suggestions s)
      in bind_e (lev_distance user_input word) (\<lambda>d.
           Inr \<lparr>direct_suggestions = direct, hit_dict = dict_set (hit_dict s) word d\<rparr>))"

definition scan_database :: "pystr list \<Rightarrow> pystr \<Rightarrow> error + scan" where
  "scan_database database user_input =
     for_each database (scan_word user_input) \<lparr>direct_suggestions = [], hit_dict = []\<rparr>"

text \<open>The body of the second loop, over the keys of \<^verbatim>\<open>hit_dict\<close>.\<close>

definition pick_best :: "hits \<Rightarrow> pystr \<Rightarrow> pystr list \<Rightarrow> error + pystr list" where
  "pick_best d word best_match =
     bind_e (dict_get d word) (\<lambda>v.
     bind_e (py_min (map snd d)) (\<lambda>lowest.
       Inr (if v = lowest then best_match @ [word] else best_match)))"

definition suggestions :: "pystr list \<Rightarrow> pystr \<Rightarrow> error + pystr list" where
  "suggestions database user_input =
     bind_e (scan_database database user_input) (\<lambda>s.
       if direct_suggestions s \<noteq> [] then Inr (direct_suggestions s)
       else for_each (map fst (hit_dict s)) (pick_best (hit_dict s)) [])"

section \<open>Reference functions\<close>

text \<open>The recurrence that the matrix implements, as a function of two lists: the cost of
  two lists that start with the same element is the cost of their tails, and otherwise one
  more than the least of the three neighbouring costs.\<close>

fun lev :: "'a list \<Rightarrow> 'a list \<Rightarrow> nat" where
  "lev [] ys = length ys"
| "lev (x # xs) [] = Suc (length xs)"
| "lev (x # xs) (y # ys) =
     (if x = y then lev xs ys
      else Suc (min (lev xs ys) (min (lev xs (y # ys)) (lev (x # xs) ys))))"

text \<open>The value that the finished matrix holds in row \<open>i\<close> and column \<open>j\<close>: the cost of the
  first \<open>i\<close> characters of \<open>str2\<close> against the first \<open>j\<close> characters of \<open>str1\<close>.\<close>

definition cell :: "pystr \<Rightarrow> pystr \<Rightarrow> nat \<Rightarrow> nat \<Rightarrow> int" where
  "cell str1 str2 i j = int (lev (rev (take i str2)) (rev (take j str1)))"

text \<open>A row as the first loop creates it: its number, then one zero per column.\<close>

definition blank_row :: "pystr \<Rightarrow> nat \<Rightarrow> int list" where
  "blank_row str1 row = int (Suc row) # replicate (length str1) 0"

text \<open>The invariants of the two nested loops that fill the matrix: the matrix has its
  full shape, the rows up to \<open>i\<close> are final, and in row \<open>i + 1\<close> the columns up to \<open>j\<close>
  are final.\<close>

definition rows_done :: "pystr \<Rightarrow> pystr \<Rightarrow> nat \<Rightarrow> matrix \<Rightarrow> bool" where
  "rows_done str1 str2 i m \<longleftrightarrow>
     length m = Suc (length str2) \<and>
     (\<forall>r \<le> length str2. length (m ! r) = Suc (length str1) \<and> m ! r ! 0 = int r) \<and>
     (\<forall>r \<le> i. \<forall>c \<le> length str1. m ! r ! c = cell str1 str2 r c)"

definition cells_done :: "pystr \<Rightarrow> pystr \<Rightarrow> nat \<Rightarrow> nat \<Rightarrow> matrix \<Rightarrow> bool" where
  "cells_done str1 str2 i j m \<longleftrightarrow>
     rows_done str1 str2 i m \<and> (\<forall>c \<le> j. m ! Suc i ! c = cell str1 str2 (Suc i) c)"

text \<open>The distance that \<^verbatim>\<open>lev_distance\<close> returns for a query and a word, as a plain
  integer.\<close>

definition distance :: "pystr \<Rightarrow> pystr \<Rightarrow> int" where
  "distance user_input word = int (lev (rev (lower word)) (rev (lower user_input)))"

text \<open>The keys of a dict that was filled from a list, in the order in which the dict
  yields them: every distinct element once, at the place of its first occurrence.\<close>

definition first_seen :: "pystr list \<Rightarrow> pystr list" where
  "first_seen database = rev (remdups (rev database))"

section \<open>Exceptions and loops\<close>

lemma bind_e_Inr [simp]: "bind_e (Inr v) f = f v"
  by (simp add: bind_e_def)

lemma bind_e_Inl [simp]: "bind_e (Inl e) f = Inl e"
  by (simp add: bind_e_def)

lemma for_each_append:
  "for_each (xs @ ys) body s = bind_e (for_each xs body s) (for_each ys body)"
proof (induction xs arbitrary: s)
  case Nil
  show ?case by simp
next
  case (Cons x xs)
  show ?case
  proof (cases "body x s")
    case (Inl e)
    then show ?thesis by simp
  next
    case (Inr t)
    then show ?thesis by (simp add: Cons.IH)
  qed
qed

lemma for_each_snoc:
  "for_each (xs @ [x]) body s = bind_e (for_each xs body s) (body x)"
proof -
  have "for_each [x] body t = body x t" for t
    by (cases "body x t") simp_all
  then have "for_each [x] body = body x" by (rule ext)
  then show ?thesis by (simp add: for_each_append)
qed

lemma for_each_upt_Suc:
  "for_each [0..<Suc n] body s = bind_e (for_each [0..<n] body s) (body n)"
  by (simp add: for_each_snoc)

lemma for_each_invariant:
  assumes init: "P 0 s"
    and step: "\<And>k t. k < n \<Longrightarrow> P k t \<Longrightarrow> \<exists>t'. body k t = Inr t' \<and> P (Suc k) t'"
  shows "\<exists>t. for_each [0..<n] body s = Inr t \<and> P n t"
  using step
proof (induction n)
  case 0
  show ?case using init by simp
next
  case (Suc n)
  have "\<exists>t. for_each [0..<n] body s = Inr t \<and> P n t"
    by (rule Suc.IH) (simp add: Suc.prems)
  then obtain t where t: "for_each [0..<n] body s = Inr t" "P n t" by blast
  from Suc.prems [of n t] t(2) obtain t' where "body n t = Inr t'" "P (Suc n) t'" by auto
  with t(1) show ?case by (simp add: for_each_upt_Suc del: upt_Suc)
qed

lemma for_each_pure:
  assumes "\<And>x t. x \<in> set xs \<Longrightarrow> body x t = Inr (g x t)"
  shows "for_each xs body s = Inr (fold g xs s)"
  using assms by (induction xs arbitrary: s) simp_all

section \<open>The recurrence\<close>

lemma lev_Nil2 [simp]: "lev xs [] = length xs"
  by (cases xs) simp_all

lemma lev_sym: "lev xs ys = lev ys xs"
  by (induction xs ys rule: lev.induct) (simp_all add: min.commute min.left_commute)

lemma lev_same [simp]: "lev xs xs = 0"
  by (induction xs) simp_all

lemma lev_lower_bound: "length xs - length ys \<le> lev xs ys"
  by (induction xs ys rule: lev.induct) auto

section \<open>Creating the matrix\<close>

lemma row_append_last:
  "row_append (m @ [r]) (length m) v = Inr (m @ [r @ [v]])"
  by (simp add: row_append_def list_get_def)

lemma add_row_eq:
  assumes "length m = Suc row"
  shows "add_row str1 row m = Inr (m @ [int (Suc row) # replicate (length str1) 0])"
proof -
  let ?P = "\<lambda>k t. t = m @ [int (Suc row) # replicate k 0]"
  have "\<exists>t. for_each [0..<length str1] (\<lambda>col m'. row_append m' (row + 1) 0)
              (m @ [[int row + 1]]) = Inr t \<and> ?P (length str1) t"
  proof (rule for_each_invariant)
    show "?P 0 (m @ [[int row + 1]])" by simp
  next
    fix k t
    assume "?P k t"
    then show "\<exists>t'. row_append t (row + 1) 0 = Inr t' \<and> ?P (Suc k) t'"
      using assms row_append_last [of m "int (Suc row) # replicate k 0" 0]
      by (simp add: replicate_append_same)
  qed
  then show ?thesis by (simp add: add_row_def)
qed

lemma create_matrix_eq:
  "create_matrix str1 str2 = Inr (first_row str1 # map (blank_row str1) [0..<length str2])"
proof -
  let ?P = "\<lambda>k t. t = first_row str1 # map (blank_row str1) [0..<k]"
  have "\<exists>t. for_each [0..<length str2] (add_row str1) [first_row str1] = Inr t
          \<and> ?P (length str2) t"
  proof (rule for_each_invariant)
    show "?P 0 [first_row str1]" by simp
  next
    fix k t
    assume "?P k t"
    then show "\<exists>t'. add_row str1 k t = Inr t' \<and> ?P (Suc k) t'"
      by (simp add: add_row_eq blank_row_def)
  qed
  then show ?thesis by (simp add: create_matrix_def)
qed

section \<open>Filling the matrix\<close>

lemma cell_row0: "j \<le> length str1 \<Longrightarrow> cell str1 str2 0 j = int j"
  by (simp add: cell_def)

lemma cell_col0: "i \<le> length str2 \<Longrightarrow> cell str1 str2 i 0 = int i"
  by (simp add: cell_def)

lemma cell_Suc:
  assumes "i < length str2" "j < length str1"
  shows "cell str1 str2 (Suc i) (Suc j) =
           (if str2 ! i = str1 ! j then cell str1 str2 i j
            else min (cell str1 str2 i j)
                   (min (cell str1 str2 i (Suc j)) (cell str1 str2 (Suc i) j)) + 1)"
  using assms by (simp add: cell_def take_Suc_conv_app_nth of_nat_min)

lemma matrix_get_in_range:
  "i < length m \<Longrightarrow> j < length (m ! i) \<Longrightarrow> matrix_get m i j = Inr (m ! i ! j)"
  by (simp add: matrix_get_def list_get_def)

lemma matrix_set_in_range:
  "i < length m \<Longrightarrow> j < length (m ! i) \<Longrightarrow>
     matrix_set m i j v = Inr (m[i := (m ! i)[j := v]])"
  by (simp add: matrix_set_def list_get_def)

lemma cell_update_eq:
  assumes inv: "cells_done str1 str2 i j m" and i: "i < length str2" and j: "j < length str1"
  shows "cell_update str1 str2 i j m =
           Inr (m[Suc i := (m ! Suc i)[Suc j := cell str1 str2 (Suc i) (Suc j)]])"
proof -
  from inv have len: "length m = Suc (length str2)"
    and rows: "\<And>r. r \<le> length str2 \<Longrightarrow> length (m ! r) = Suc (length str1)"
    and above: "\<And>c. c \<le> length str1 \<Longrightarrow> m ! i ! c = cell str1 str2 i c"
    and before: "\<And>c. c \<le> j \<Longrightarrow> m ! Suc i ! c = cell str1 str2 (Suc i) c"
    by (simp_all add: cells_done_def rows_done_def)
  have top: "matrix_get m i j = Inr (cell str1 str2 i j)"
    using i j len rows [of i] above [of j] by (simp add: matrix_get_in_range)
  have left: "matrix_get m i (Suc j) = Inr (cell str1 str2 i (Suc j))"
    using i j len rows [of i] above [of "Suc j"] by (simp add: matrix_get_in_range)
  have bottom: "matrix_get m (Suc i) j = Inr (cell str1 str2 (Suc i) j)"
    using i j len rows [of "Suc i"] before [of j] by (simp add: matrix_get_in_range)
  have store: "matrix_set m (Suc i) (Suc j) v = Inr (m[Suc i := (m ! Suc i)[Suc j := v]])" for v
    using i j len rows [of "Suc i"] by (simp add: matrix_set_in_range)
  show ?thesis
    using i j by (simp add: cell_update_def list_get_def top left bottom store cell_Suc
        min.commute min.left_commute)
qed

lemma cells_done_step:
  assumes inv: "cells_done str1 str2 i j m" and i: "i < length str2" and j: "j < length str1"
  shows "cells_done str1 str2 i (Suc j)
           (m[Suc i := (m ! Suc i)[Suc j := cell str1 str2 (Suc i) (Suc j)]])"
  using assms unfolding cells_done_def rows_done_def
  by (auto simp: nth_list_update)

lemma calc_row_ok:
  assumes inv: "rows_done str1 str2 i m" and i: "i < length str2"
  shows "\<exists>m'. calc_row str1 str2 i m = Inr m' \<and> rows_done str1 str2 (Suc i) m'"
proof -
  have "\<exists>m'. for_each [0..<length str1] (cell_update str1 str2 i) m = Inr m'
          \<and> cells_done str1 str2 i (length str1) m'"
  proof (rule for_each_invariant)
    show "cells_done str1 str2 i 0 m"
      using inv i by (simp add: cells_done_def rows_done_def cell_col0)
  next
    fix j t
    assume "j < length str1" "cells_done str1 str2 i j t"
    then show "\<exists>t'. cell_update str1 str2 i j t = Inr t' \<and> cells_done str1 str2 i (Suc j) t'"
      using i by (simp add: cell_update_eq cells_done_step)
  qed
  then obtain m' where m': "calc_row str1 str2 i m = Inr m'"
    "cells_done str1 str2 i (length str1) m'"
    by (auto simp: calc_row_def)
  from m'(2) have "rows_done str1 str2 (Suc i) m'"
    unfolding cells_done_def rows_done_def by (auto simp: le_Suc_eq)
  with m'(1) show ?thesis by simp
qed

lemma calc_matrix_ok:
  assumes "rows_done str1 str2 0 m"
  shows "\<exists>m'. calc_matrix str1 str2 m = Inr m' \<and> rows_done str1 str2 (length str2) m'"
  unfolding calc_matrix_def
  by (rule for_each_invariant) (simp_all add: assms calc_row_ok)

lemma created_rows_done:
  "rows_done str1 str2 0 (first_row str1 # map (blank_row str1) [0..<length str2])"
proof -
  let ?m = "first_row str1 # map (blank_row str1) [0..<length str2]"
  have first: "?m ! 0 ! c = int c" if "c \<le> length str1" for c
  proof -
    from that have "c < length [0..<Suc (length str1)]" by simp
    then have "map int [0..<Suc (length str1)] ! c = int ([0..<Suc (length str1)] ! c)"
      by (rule nth_map)
    with that show ?thesis by (simp add: first_row_def nth_upt del: upt_Suc)
  qed
  have row: "length (?m ! r) = Suc (length str1) \<and> ?m ! r ! 0 = int r"
    if "r \<le> length str2" for r
  proof (cases r)
    case 0
    then show ?thesis using first [of 0] by (simp add: first_row_def)
  next
    case (Suc k)
    with that show ?thesis by (simp add: blank_row_def)
  qed
  show ?thesis
    unfolding rows_done_def using row first by (simp add: cell_row0)
qed

lemma rows_done_all:
  assumes "rows_done str1 str2 (length str2) m"
  shows "m = map (\<lambda>i. map (cell str1 str2 i) [0..<Suc (length str1)]) [0..<Suc (length str2)]"
proof (rule nth_equalityI)
  show "length m = length (map (\<lambda>i. map (cell str1 str2 i) [0..<Suc (length str1)])
                     [0..<Suc (length str2)])"
    using assms by (simp add: rows_done_def)
next
  fix r
  assume "r < length m"
  with assms have r: "r \<le> length str2" by (simp add: rows_done_def)
  have "m ! r = map (cell str1 str2 r) [0..<Suc (length str1)]"
  proof (rule nth_equalityI)
    show "length (m ! r) = length (map (cell str1 str2 r) [0..<Suc (length str1)])"
      using assms r by (simp add: rows_done_def)
  next
    fix c
    assume "c < length (m ! r)"
    with assms r have c: "c \<le> length str1" by (simp add: rows_done_def)
    with assms r have "m ! r ! c = cell str1 str2 r c" by (simp add: rows_done_def)
    moreover from c have "map (cell str1 str2 r) [0..<Suc (length str1)] ! c = cell str1 str2 r c"
      by (simp add: nth_upt del: upt_Suc)
    ultimately show "m ! r ! c = map (cell str1 str2 r) [0..<Suc (length str1)] ! c" by simp
  qed
  moreover from r have "map (\<lambda>i. map (cell str1 str2 i) [0..<Suc (length str1)])
      [0..<Suc (length str2)] ! r = map (cell str1 str2 r) [0..<Suc (length str1)]"
    by (simp add: nth_upt del: upt_Suc)
  ultimately show "m ! r = map (\<lambda>i. map (cell str1 str2 i) [0..<Suc (length str1)])
      [0..<Suc (length str2)] ! r" by simp
qed

lemma lev_matrix_eq:
  "lev_matrix s1 s2 =
     Inr (map (\<lambda>i. map (cell (lower s1) (lower s2) i) [0..<Suc (length (lower s1))])
            [0..<Suc (length (lower s2))])"
proof -
  obtain m where m: "calc_matrix (lower s1) (lower s2)
        (first_row (lower s1) # map (blank_row (lower s1)) [0..<length (lower s2)]) = Inr m"
      "rows_done (lower s1) (lower s2) (length (lower s2)) m"
    using calc_matrix_ok [OF created_rows_done] by blast
  from m(2) have "m = map (\<lambda>i. map (cell (lower s1) (lower s2) i) [0..<Suc (length (lower s1))])
            [0..<Suc (length (lower s2))]"
    by (rule rows_done_all)
  with m(1) show ?thesis by (simp add: lev_matrix_def create_matrix_eq Let_def del: upt_Suc)
qed

lemma lev_distance_eq:
  "lev_distance s1 s2 = Inr (int (lev (rev (lower s2)) (rev (lower s1))))"
  by (simp add: lev_distance_def lev_matrix_eq list_last_def last_map cell_def del: upt_Suc)

lemma lower_append: "lower (xs @ ys) = lower xs @ lower ys"
  by (simp add: lower_def)

lemma length_lower: "length (lower s) = length s + count_list s Capital_I_dot"
proof (induction s)
  case Nil
  show ?case by (simp add: lower_def)
next
  case (Cons c s)
  have "lower (c # s) = lower_codepoint c @ lower s"
    by (simp add: lower_def)
  with Cons show ?case by (cases c) simp_all
qed

section \<open>The two loops of \<^verbatim>\<open>suggestions\<close>\<close>

lemma str_in_sublist: "str_in needle hay \<longleftrightarrow> sublist needle hay"
  by (induction hay) (simp_all add: sublist_Cons_right)

lemma lower_char_idem: "lower_char (lower_char c) = lower_char c"
proof -
  show ?thesis
    by (auto simp add: lower_char_def Let_def)
qed

lemma lower_idem: "lower (lower s) = lower s"
proof (induction s)
  case Nil
  show ?case by (simp add: lower_def)
next
  case (Cons c s)
  have "lower (c # s) = lower_codepoint c @ lower s"
    by (simp add: lower_def)
  moreover have "lower (lower_codepoint c) = lower_codepoint c"
  proof (cases c)
    case (Latin x)
    then show ?thesis by (simp add: lower_def lower_char_idem)
  next
    case Capital_I_dot
    have "lower_char CHR ''i'' = CHR ''i''" by code_simp
    with Capital_I_dot show ?thesis by (simp add: lower_def)
  next
    case Combining_dot
    then show ?thesis by (simp add: lower_def)
  qed
  ultimately show ?case by (simp add: lower_append Cons)
qed

lemma str_in_lower:
  assumes "str_in q (lower w)"
  shows "str_in (lower q) (lower w)"
proof -
  from assms obtain ps ss where "lower w = ps @ q @ ss"
    by (auto simp: str_in_sublist sublist_def)
  then have "lower (lower w) = lower ps @ lower q @ lower ss"
    by (simp add: lower_append)
  then have "lower w = lower ps @ lower q @ lower ss"
    by (simp add: lower_idem)
  then show ?thesis
    unfolding str_in_sublist sublist_def by blast
qed

lemma first_seen_snoc:
  "first_seen (ws @ [w]) = (if w \<in> set ws then first_seen ws else first_seen ws @ [w])"
  by (simp add: first_seen_def)

lemma set_first_seen [simp]: "set (first_seen ws) = set ws"
  by (simp add: first_seen_def)

lemma distinct_first_seen [simp]: "distinct (first_seen ws)"
  by (simp add: first_seen_def)

lemma subseq_first_seen: "subseq (first_seen ws) ws"
proof (induction ws rule: rev_induct)
  case Nil
  show ?case by (simp add: first_seen_def)
next
  case (snoc w ws)
  show ?case
  proof (cases "w \<in> set ws")
    case True
    with snoc show ?thesis by (simp add: first_seen_snoc subseq_rev_drop_many)
  next
    case False
    with snoc show ?thesis by (simp add: first_seen_snoc)
  qed
qed

lemma dict_set_known:
  "k \<in> set ks \<Longrightarrow> dict_set (map (\<lambda>w. (w, f w)) ks) k (f k) = map (\<lambda>w. (w, f w)) ks"
  by (induction ks) auto

lemma dict_set_new:
  "k \<notin> set ks \<Longrightarrow> dict_set (map (\<lambda>w. (w, f w)) ks) k (f k) = map (\<lambda>w. (w, f w)) (ks @ [k])"
  by (induction ks) auto

lemma dict_get_known:
  "k \<in> set ks \<Longrightarrow> dict_get (map (\<lambda>w. (w, f w)) ks) k = Inr (f k)"
  by (induction ks) (auto simp: dict_get_def)

lemma py_min_Min:
  assumes "vs \<noteq> []"
  shows "py_min vs = Inr (Min (set vs))"
proof (cases vs)
  case Nil
  with assms show ?thesis by simp
next
  case (Cons x xs)
  have "fold min xs x = Min (set (x # xs))"
    by (rule Min.set_eq_fold [symmetric])
  with Cons show ?thesis by simp
qed

lemma scan_word_eq:
  "scan_word q w s =
     Inr \<lparr>direct_suggestions = (if str_in q (lower w) then direct_suggestions s @ [w]
                                else direct_suggestions s),
          hit_dict = dict_set (hit_dict s) w (distance q w)\<rparr>"
  by (simp add: scan_word_def lev_distance_eq distance_def)

lemma scan_database_eq:
  "scan_database db q =
     Inr \<lparr>direct_suggestions = filter (\<lambda>w. str_in q (lower w)) db,
          hit_dict = map (\<lambda>w. (w, distance q w)) (first_seen db)\<rparr>"
  unfolding scan_database_def
proof (induction db rule: rev_induct)
  case Nil
  show ?case by (simp add: first_seen_def)
next
  case (snoc w ws)
  have "for_each (ws @ [w]) (scan_word q) \<lparr>direct_suggestions = [], hit_dict = []\<rparr> =
          scan_word q w \<lparr>direct_suggestions = filter (\<lambda>w. str_in q (lower w)) ws,
                         hit_dict = map (\<lambda>w. (w, distance q w)) (first_seen ws)\<rparr>"
    by (simp only: for_each_snoc snoc bind_e_Inr)
  also have "\<dots> = Inr \<lparr>direct_suggestions = filter (\<lambda>w. str_in q (lower w)) (ws @ [w]),
                        hit_dict = map (\<lambda>w. (w, distance q w)) (first_seen (ws @ [w]))\<rparr>"
    by (simp add: scan_word_eq first_seen_snoc dict_set_known dict_set_new)
  finally show ?case .
qed

lemma collect_filter:
  "fold (\<lambda>w best. if P w then best @ [w] else best) ws acc = acc @ filter P ws"
  by (induction ws arbitrary: acc) simp_all

lemma best_match_eq:
  assumes "distinct ks"
  shows "for_each ks (pick_best (map (\<lambda>w. (w, f w)) ks)) [] =
           Inr (filter (\<lambda>w. f w = Min (f ` set ks)) ks)"
proof -
  let ?d = "map (\<lambda>w. (w, f w)) ks"
  have "pick_best ?d k best =
          Inr (if f k = Min (f ` set ks) then best @ [k] else best)"
    if "k \<in> set ks" for k best
  proof -
    from that have "map snd ?d \<noteq> []" by auto
    then have "py_min (map snd ?d) = Inr (Min (set (map snd ?d)))" by (rule py_min_Min)
    moreover have "set (map snd ?d) = f ` set ks" by (simp add: image_image)
    ultimately show ?thesis using that by (simp add: pick_best_def dict_get_known)
  qed
  then have "for_each ks (pick_best ?d) [] =
      Inr (fold (\<lambda>k best. if f k = Min (f ` set ks) then best @ [k] else best) ks [])"
    by (rule for_each_pure)
  then show ?thesis by (simp add: collect_filter)
qed

lemma suggestions_eq:
  "suggestions db q =
     Inr (if filter (\<lambda>w. str_in q (lower w)) db \<noteq> []
          then filter (\<lambda>w. str_in q (lower w)) db
          else filter (\<lambda>w. distance q w = Min (distance q ` set db)) (first_seen db))"
  using best_match_eq [of "first_seen db" "distance q"]
  by (simp add: suggestions_def scan_database_eq comp_def)

lemma distance_projr: "distance q w = projr (lev_distance q w)"
  by (simp add: distance_def lev_distance_eq)

section \<open>Properties of \<^verbatim>\<open>lev_distance\<close>\<close>

text \<open>C6. For all strings \<open>a\<close> and \<open>b\<close>, the distance from \<open>a\<close> to \<open>b\<close> equals the distance
  from \<open>b\<close> to \<open>a\<close>: both calls return, and they return the same integer.\<close>

theorem lev_distance_symmetric: "lev_distance a b = lev_distance b a"
  by (simp add: lev_distance_eq lev_sym [of "rev (lower b)"])

text \<open>C7. The distance from a string to itself is 0, and the comparison ignores letter
  case: two strings with the same lowercase form have distance 0, as \<^verbatim>\<open>Pikachu\<close> and
  \<^verbatim>\<open>pikachu\<close> have.\<close>

theorem lev_distance_same_up_to_case:
  "lev_distance a a = Inr 0
   \<and> (lower a = lower b \<longrightarrow> lev_distance a b = Inr 0)
   \<and> lev_distance (str ''Pikachu'') (str ''pikachu'') = Inr 0"
proof -
  have "lower (str ''Pikachu'') = lower (str ''pikachu'')" by code_simp
  then show ?thesis by (simp add: lev_distance_eq)
qed

theorem lev_distance_same_up_to_case_witness:
  "lower (str ''Eevee'') = lower (str ''eEVEE'')
   \<and> lev_distance (str ''Eevee'') (str ''eEVEE'') = Inr 0"
proof -
  have h: "lower (str ''Eevee'') = lower (str ''eEVEE'')" by code_simp
  with lev_distance_same_up_to_case [of "str ''Eevee''" "str ''eEVEE''"] show ?thesis by blast
qed

text \<open>C8. The specification says that the distance between the empty string and a string
  \<open>s\<close>, in either order, is the length of \<open>s\<close>. The source lowercases both strings before
  it builds the matrix, and the lowercase form of U+0130 has two code points: for the
  one-character string that holds U+0130 the distance from the empty string is 2.\<close>

theorem lev_distance_empty_counterexample:
  "length [Capital_I_dot] = 1
   \<and> lev_distance [] [Capital_I_dot] = Inr 2
   \<and> lev_distance [Capital_I_dot] [] = Inr 2
   \<and> lev_distance [] [Capital_I_dot] \<noteq> Inr (int (length [Capital_I_dot]))"
  by code_simp

text \<open>C8, as the code has it. The distance between the empty string and a string \<open>s\<close>, in
  either order, is the length of the lowercase form of \<open>s\<close>, which is the length of \<open>s\<close>
  plus the number of occurrences of U+0130 in \<open>s\<close>; the call returns and raises nothing.\<close>

theorem lev_distance_empty:
  "lev_distance [] s = Inr (int (length (lower s)))
   \<and> lev_distance s [] = Inr (int (length (lower s)))
   \<and> length (lower s) = length s + count_list s Capital_I_dot"
proof -
  have "lower [] = []" by (simp add: lower_def)
  then have "lev_distance [] s = Inr (int (length (lower s)))"
    and "lev_distance s [] = Inr (int (length (lower s)))"
    by (simp_all add: lev_distance_eq)
  then show ?thesis by (simp add: length_lower)
qed

text \<open>C9. The specification says that the distance between two strings is at least the
  absolute difference of their lengths. The string that holds U+0130 alone and the string
  of \<open>i\<close> followed by U+0307 have the same lowercase form, so their distance is 0, while
  their lengths are 1 and 2.\<close>

theorem lev_distance_lower_bound_counterexample:
  "length [Capital_I_dot] = 1
   \<and> length [Latin CHR ''i'', Combining_dot] = 2
   \<and> lev_distance [Capital_I_dot] [Latin CHR ''i'', Combining_dot] = Inr 0
   \<and> \<not> \<bar>int (length [Capital_I_dot]) - int (length [Latin CHR ''i'', Combining_dot])\<bar> \<le> 0"
  by code_simp

text \<open>C9, as the code has it. The distance between two strings is at least the absolute
  difference of the lengths of their lowercase forms, and it is never negative.\<close>

theorem lev_distance_lower_bound:
  "\<exists>d. lev_distance a b = Inr d
     \<and> \<bar>int (length (lower a)) - int (length (lower b))\<bar> \<le> d \<and> 0 \<le> d"
proof -
  let ?xs = "rev (lower b)" and ?ys = "rev (lower a)"
  have "length ?xs - length ?ys \<le> lev ?xs ?ys"
    by (rule lev_lower_bound)
  moreover have "length ?ys - length ?xs \<le> lev ?xs ?ys"
    using lev_lower_bound [of ?ys ?xs] by (simp add: lev_sym [of ?ys])
  ultimately have "\<bar>int (length (lower a)) - int (length (lower b))\<bar> \<le> int (lev ?xs ?ys)"
    by simp
  then show ?thesis by (simp add: lev_distance_eq)
qed

text \<open>C10. Every subscript into the matrix is in range, for all strings and the empty
  ones too: with \<open>str1\<close> and \<open>str2\<close> the lowercase forms of \<open>a\<close> and \<open>b\<close>, as in the source,
  the matrix is created with \<open>len(str2) + 1\<close> rows of \<open>len(str1) + 1\<close> entries each, it
  keeps that shape while it is filled, and \<^verbatim>\<open>lev_distance\<close> returns an integer instead of
  raising \<^verbatim>\<open>IndexError\<close>.\<close>

theorem lev_distance_in_bounds:
  "\<exists>m0 m d. create_matrix (lower a) (lower b) = Inr m0
     \<and> map length m0 = replicate (length (lower b) + 1) (length (lower a) + 1)
     \<and> lev_matrix a b = Inr m
     \<and> map length m = replicate (length (lower b) + 1) (length (lower a) + 1)
     \<and> lev_distance a b = Inr d"
  by (simp add: create_matrix_eq lev_matrix_eq lev_distance_eq first_row_def blank_row_def
      map_replicate_const comp_def del: upt_Suc)

section \<open>Properties of \<^verbatim>\<open>suggestions\<close>\<close>

text \<open>C1. The specification says that the substring pass collects the candidates whose
  lowercase form contains the lowercase form of the query. The source tests \<^verbatim>\<open>user_input in word.lower()\<close>
  with the query as it was typed. For the candidates \<^verbatim>\<open>Pikachu\<close> and \<^verbatim>\<open>Pik\<close> and the query
  \<^verbatim>\<open>Pika\<close>, the lowercase query occurs in the first lowercase candidate, yet the pass
  collects nothing and \<^verbatim>\<open>suggestions\<close> falls through to the distance pass, which returns
  \<^verbatim>\<open>Pik\<close> alone.\<close>

theorem suggestions_uppercase_query:
  "str_in (lower (str ''Pika'')) (lower (str ''Pikachu''))
   \<and> \<not> str_in (str ''Pika'') (lower (str ''Pikachu''))
   \<and> scan_database [str ''Pikachu'', str ''Pik''] (str ''Pika'') =
       Inr \<lparr>direct_suggestions = [], hit_dict = [(str ''Pikachu'', 3), (str ''Pik'', 1)]\<rparr>
   \<and> suggestions [str ''Pikachu'', str ''Pik''] (str ''Pika'') = Inr [str ''Pik'']"
  by code_simp

text \<open>C2. The specification says that, when the substring pass collects nothing, every
  candidate at the least distance is returned in candidate order, a candidate listed twice appearing twice. For the
  candidates \<^verbatim>\<open>ab\<close>, \<^verbatim>\<open>cd\<close>, \<^verbatim>\<open>ab\<close> and the query \<^verbatim>\<open>zz\<close> no candidate contains the
  query and all three are at distance 2, yet the result lists \<^verbatim>\<open>ab\<close> once: \<^verbatim>\<open>hit_dict\<close> has
  one entry per distinct string.\<close>

theorem suggestions_duplicates_counterexample:
  "\<not> str_in (lower (str ''zz'')) (lower (str ''ab''))
   \<and> \<not> str_in (lower (str ''zz'')) (lower (str ''cd''))
   \<and> lev_distance (str ''zz'') (str ''ab'') = Inr 2 \<and> lev_distance (str ''zz'') (str ''cd'') = Inr 2
   \<and> suggestions [str ''ab'', str ''cd'', str ''ab''] (str ''zz'') = Inr [str ''ab'', str ''cd'']
   \<and> suggestions [str ''ab'', str ''cd'', str ''ab''] (str ''zz'')
       \<noteq> Inr [str ''ab'', str ''cd'', str ''ab'']"
  by code_simp

text \<open>C2, as the code has it. For a non-empty candidate list in which no lowercase
  candidate contains the query, \<^verbatim>\<open>suggestions\<close> returns every distinct candidate string whose
  distance from the query is the least distance over all candidates, each one once, in the
  order of first occurrence in the candidate list.\<close>

theorem suggestions_distance_pass:
  assumes "database \<noteq> []"
    and "\<forall>w \<in> set database. \<not> str_in user_input (lower w)"
  shows "suggestions database user_input =
           Inr (filter (\<lambda>w. projr (lev_distance user_input w) =
                             Min ((\<lambda>c. projr (lev_distance user_input c)) ` set database))
                  (rev (remdups (rev database))))"
proof -
  from assms(2) have "filter (\<lambda>w. str_in user_input (lower w)) database = []"
    by (simp add: filter_empty_conv)
  moreover have "distance user_input = (\<lambda>c. projr (lev_distance user_input c))"
    by (rule ext) (rule distance_projr)
  ultimately show ?thesis
    by (simp add: suggestions_eq first_seen_def)
qed

theorem suggestions_distance_pass_witness:
  "[str ''Bulbasaur'', str ''Ivysaur'', str ''Venusaur''] \<noteq> []
   \<and> \<not> str_in (str ''pikuchu'') (lower (str ''Bulbasaur''))
   \<and> \<not> str_in (str ''pikuchu'') (lower (str ''Ivysaur''))
   \<and> \<not> str_in (str ''pikuchu'') (lower (str ''Venusaur''))
   \<and> suggestions [str ''Bulbasaur'', str ''Ivysaur'', str ''Venusaur''] (str ''pikuchu'') =
       Inr (filter (\<lambda>w. projr (lev_distance (str ''pikuchu'') w) =
                         Min ((\<lambda>c. projr (lev_distance (str ''pikuchu'') c))
                               ` set [str ''Bulbasaur'', str ''Ivysaur'', str ''Venusaur'']))
              (rev (remdups (rev [str ''Bulbasaur'', str ''Ivysaur'', str ''Venusaur'']))))
   \<and> suggestions [str ''Bulbasaur'', str ''Ivysaur'', str ''Venusaur''] (str ''pikuchu'') =
       Inr [str ''Ivysaur'', str ''Venusaur'']"
proof -
  have h1: "[str ''Bulbasaur'', str ''Ivysaur'', str ''Venusaur''] \<noteq> []" by simp
  have n1: "\<not> str_in (str ''pikuchu'') (lower (str ''Bulbasaur''))" by code_simp
  have n2: "\<not> str_in (str ''pikuchu'') (lower (str ''Ivysaur''))" by code_simp
  have n3: "\<not> str_in (str ''pikuchu'') (lower (str ''Venusaur''))" by code_simp
  from n1 n2 n3
  have h2: "\<forall>w \<in> set [str ''Bulbasaur'', str ''Ivysaur'', str ''Venusaur''].
              \<not> str_in (str ''pikuchu'') (lower w)"
    by simp
  have v: "suggestions [str ''Bulbasaur'', str ''Ivysaur'', str ''Venusaur''] (str ''pikuchu'') =
       Inr [str ''Ivysaur'', str ''Venusaur'']"
    by code_simp
  from suggestions_distance_pass [OF h1 h2] h1 n1 n2 n3 v show ?thesis by blast
qed

text \<open>C3. For every candidate list and query, \<^verbatim>\<open>suggestions\<close> returns a subsequence of
  the candidate list: only strings of the list, in their original relative order, whichever
  of the two passes produces the result.\<close>

theorem suggestions_subseq:
  "\<exists>r. suggestions database user_input = Inr r \<and> subseq r database \<and> set r \<subseteq> set database"
proof -
  have "subseq (filter P (first_seen database)) database" for P
    using subseq_filter_left [of P "first_seen database"] subseq_first_seen [of database]
    by (rule subseq_order.trans)
  then show ?thesis
    by (auto simp: suggestions_eq)
qed

text \<open>C4. If the substring pass collects at least one candidate, \<^verbatim>\<open>suggestions\<close> returns
  exactly the candidates that the pass collected, in candidate order, whatever their
  distances; and for the empty query and a non-empty candidate list it returns all the
  candidates.\<close>

theorem suggestions_direct_first:
  "((\<exists>w \<in> set database. str_in user_input (lower w)) \<longrightarrow>
      suggestions database user_input =
        Inr (filter (\<lambda>w. str_in user_input (lower w)) database))
   \<and> (database \<noteq> [] \<longrightarrow> suggestions database [] = Inr database)"
proof -
  have "str_in [] hay" for hay
    by (cases hay) simp_all
  then show ?thesis
    by (auto simp: suggestions_eq filter_empty_conv)
qed

theorem suggestions_direct_first_witness:
  "(\<exists>w \<in> set [str ''Pikachu'', str ''Raichu'']. str_in (str ''chu'') (lower w))
   \<and> suggestions [str ''Pikachu'', str ''Raichu''] (str ''chu'') =
       Inr [str ''Pikachu'', str ''Raichu'']
   \<and> [str ''Pikachu'', str ''Raichu''] \<noteq> []
   \<and> suggestions [str ''Pikachu'', str ''Raichu''] [] = Inr [str ''Pikachu'', str ''Raichu'']"
proof -
  have h: "\<exists>w \<in> set [str ''Pikachu'', str ''Raichu'']. str_in (str ''chu'') (lower w)" by code_simp
  have f: "filter (\<lambda>w. str_in (str ''chu'') (lower w)) [str ''Pikachu'', str ''Raichu''] =
             [str ''Pikachu'', str ''Raichu'']" by code_simp
  have n: "[str ''Pikachu'', str ''Raichu''] \<noteq> []" by simp
  from suggestions_direct_first [of "[str ''Pikachu'', str ''Raichu'']" "str ''chu''"] h n
  have "suggestions [str ''Pikachu'', str ''Raichu''] (str ''chu'') =
          Inr (filter (\<lambda>w. str_in (str ''chu'') (lower w)) [str ''Pikachu'', str ''Raichu''])"
    and e: "suggestions [str ''Pikachu'', str ''Raichu''] [] =
              Inr [str ''Pikachu'', str ''Raichu'']"
    by blast+
  then have "suggestions [str ''Pikachu'', str ''Raichu''] (str ''chu'') =
               Inr [str ''Pikachu'', str ''Raichu'']"
    by (simp only: f)
  with h n e show ?thesis by blast
qed

text \<open>C5. For every query, \<^verbatim>\<open>suggestions\<close> on the empty candidate list returns the empty
  list; and for every candidate list and query it returns a list and raises nothing.\<close>

theorem suggestions_total:
  "suggestions [] user_input = Inr [] \<and> (\<exists>r. suggestions database user_input = Inr r)"
  by (simp add: suggestions_eq first_seen_def)

end
